theory Spec2Isabelle
  imports Main
begin

section \<open>Python strings\<close>

text \<open>
  A Python \<open>str\<close> is a sequence of Unicode code points, so a string is a list of
  natural numbers here and \<open>length\<close> counts what Python's \<open>len\<close> counts. ASCII
  literals are written through \<open>u\<close>; the accented letters of the source are given by
  their code points (a acute 225, e acute 233, i acute 237, o acute 243, u acute 250,
  u diaeresis 252, n tilde 241, capital I acute 205).
\<close>

type_synonym ustr = "nat list"

definition u :: "string \<Rightarrow> ustr" where
  "u s = map of_char s"

text \<open>
  The tables of the Unicode database are written out for the code points below 256
  (Latin-1, which holds every character of the source's constants). Above, they are
  parameters: \<open>lower_hi\<close> gives what \<open>str.lower\<close> puts for a code point, given the text
  before and after it (lowering can lengthen the string, and capital sigma depends on
  its context), and \<open>alnum_hi\<close> says whether the regex engine takes it for a word
  character.
\<close>

record unicode_db =
  lower_hi :: "ustr \<Rightarrow> nat \<Rightarrow> ustr \<Rightarrow> ustr"
  alnum_hi :: "nat \<Rightarrow> bool"

text \<open>A database that knows no letters above Latin-1, for running examples.\<close>

definition latin1_db :: unicode_db where
  "latin1_db = \<lparr>lower_hi = (\<lambda>pre c post. [c]), alnum_hi = (\<lambda>c. False)\<rparr>"

definition lower_l1 :: "nat \<Rightarrow> nat" where
  "lower_l1 c =
     (if 65 \<le> c \<and> c \<le> 90 then c + 32
      else if 192 \<le> c \<and> c \<le> 222 \<and> c \<noteq> 215 then c + 32
      else c)"

definition upper_l1 :: "nat \<Rightarrow> nat" where
  "upper_l1 c =
     (if 97 \<le> c \<and> c \<le> 122 then c - 32
      else if 224 \<le> c \<and> c \<le> 254 \<and> c \<noteq> 247 then c - 32
      else c)"

fun lower_from :: "unicode_db \<Rightarrow> ustr \<Rightarrow> ustr \<Rightarrow> ustr" where
  "lower_from U pre [] = []"
| "lower_from U pre (c # cs) =
     (if c < 256 then [lower_l1 c] else lower_hi U pre c cs)
       @ lower_from U (pre @ [c]) cs"

definition lower :: "unicode_db \<Rightarrow> ustr \<Rightarrow> ustr" where
  "lower U s = lower_from U [] s"

text \<open>
  \<open>str.capitalize\<close>: the first character in upper case, the rest in lower case. The
  source applies it to the entries of its two fixed tables only, whose characters are
  lower-case Latin-1 letters and spaces, so the Latin-1 case tables are all it reads.
\<close>

fun capitalize :: "ustr \<Rightarrow> ustr" where
  "capitalize [] = []"
| "capitalize (c # cs) = upper_l1 c # map lower_l1 cs"

text \<open>Whitespace as \<open>str.strip()\<close> and \<open>str.split()\<close> see it.\<close>

definition is_space :: "nat \<Rightarrow> bool" where
  "is_space c \<longleftrightarrow>
     (9 \<le> c \<and> c \<le> 13) \<or> (28 \<le> c \<and> c \<le> 32) \<or> c = 133 \<or> c = 160 \<or> c = 5760
     \<or> (8192 \<le> c \<and> c \<le> 8202) \<or> c = 8232 \<or> c = 8233 \<or> c = 8239 \<or> c = 8287
     \<or> c = 12288"

definition strip :: "ustr \<Rightarrow> ustr" where
  "strip s = rev (dropWhile is_space (rev (dropWhile is_space s)))"

text \<open>\<open>s.split()\<close>: the maximal runs of characters that are not whitespace.\<close>

fun split_ws :: "ustr \<Rightarrow> ustr \<Rightarrow> ustr list" where
  "split_ws cur [] = (if cur = [] then [] else [cur])"
| "split_ws cur (c # cs) =
     (if is_space c then (if cur = [] then split_ws [] cs else cur # split_ws [] cs)
      else split_ws (cur @ [c]) cs)"

definition py_split :: "ustr \<Rightarrow> ustr list" where
  "py_split s = split_ws [] s"

text \<open>\<open>s.split(sep)\<close> for a one-character separator: never an empty list.\<close>

fun split_on :: "nat \<Rightarrow> ustr \<Rightarrow> ustr list" where
  "split_on d [] = [[]]"
| "split_on d (c # cs) =
     (if c = d then [] # split_on d cs
      else (case split_on d cs of [] \<Rightarrow> [[c]] | l # ls \<Rightarrow> (c # l) # ls))"

fun join_nl :: "ustr list \<Rightarrow> ustr" where
  "join_nl [] = []"
| "join_nl [x] = x"
| "join_nl (x # y # ys) = x @ [10] @ join_nl (y # ys)"

text \<open>\<open>p in s\<close> on strings: \<open>p\<close> occurs in \<open>s\<close> as a contiguous run.\<close>

fun starts_with :: "ustr \<Rightarrow> ustr \<Rightarrow> bool" where
  "starts_with [] s = True"
| "starts_with (p # ps) [] = False"
| "starts_with (p # ps) (c # cs) = (if p = c then starts_with ps cs else False)"

fun py_in :: "ustr \<Rightarrow> ustr \<Rightarrow> bool" where
  "py_in p [] = (p = [])"
| "py_in p (c # cs) = (if starts_with p (c # cs) then True else py_in p cs)"

section \<open>Regular expressions\<close>

text \<open>
  The fragment of Python's \<open>re\<close> that the source's patterns use: a character, a
  class \<open>[...]\<close>, a negated class \<open>[^...]\<close>, the dot (any character but the line
  break), a starred character set, and the word boundary \<open>\b\<close>. A pattern is the
  list of its items. The group of the table pattern has no effect on \<open>re.search\<close>
  and is not represented.
\<close>

datatype atom = Lit nat | OneOf "nat list" | NoneOf "nat list" | Dot

datatype rx = One atom | Star atom | WordB

fun atom_ok :: "atom \<Rightarrow> nat \<Rightarrow> bool" where
  "atom_ok (Lit a) c = (c = a)"
| "atom_ok (OneOf cs) c = (c \<in> set cs)"
| "atom_ok (NoneOf cs) c = (c \<notin> set cs)"
| "atom_ok Dot c = (c \<noteq> 10)"

text \<open>
  \<open>\w\<close> of a \<open>str\<close> pattern: the alphanumeric code points and the underscore.
\<close>

definition is_word :: "unicode_db \<Rightarrow> nat \<Rightarrow> bool" where
  "is_word U c \<longleftrightarrow>
     (if c < 256 then
        (48 \<le> c \<and> c \<le> 57) \<or> (65 \<le> c \<and> c \<le> 90) \<or> c = 95 \<or> (97 \<le> c \<and> c \<le> 122)
        \<or> c = 170 \<or> c = 178 \<or> c = 179 \<or> c = 181 \<or> c = 185 \<or> c = 186
        \<or> (188 \<le> c \<and> c \<le> 190) \<or> (192 \<le> c \<and> c \<le> 214) \<or> (216 \<le> c \<and> c \<le> 246)
        \<or> 248 \<le> c
      else alnum_hi U c)"

fun word_at :: "unicode_db \<Rightarrow> nat option \<Rightarrow> bool" where
  "word_at U None = False"
| "word_at U (Some c) = is_word U c"

fun next_char :: "ustr \<Rightarrow> nat option" where
  "next_char [] = None"
| "next_char (c # cs) = Some c"

text \<open>
  \<open>rmatch U pat prev s\<close>: the pattern matches a prefix of \<open>s\<close>, where \<open>prev\<close> is
  the character before \<open>s\<close> in the searched string (none at its start). Only the
  existence of a match is asked for, so the greediness of the star plays no part: the
  star first tries to stop, then to take one more character.
\<close>

fun rmatch :: "unicode_db \<Rightarrow> rx list \<Rightarrow> nat option \<Rightarrow> ustr \<Rightarrow> bool" where
  "rmatch U [] prev s = True"
| "rmatch U (One a # r) prev [] = False"
| "rmatch U (One a # r) prev (c # cs) = (if atom_ok a c then rmatch U r (Some c) cs else False)"
| "rmatch U (Star a # r) prev [] = rmatch U r prev []"
| "rmatch U (Star a # r) prev (c # cs) =
     (if rmatch U r prev (c # cs) then True
      else if atom_ok a c then rmatch U (Star a # r) (Some c) cs
      else False)"
| "rmatch U (WordB # r) prev s =
     (if word_at U prev \<noteq> word_at U (next_char s) then rmatch U r prev s else False)"

fun search_from :: "unicode_db \<Rightarrow> rx list \<Rightarrow> nat option \<Rightarrow> ustr \<Rightarrow> bool" where
  "search_from U pat prev [] = rmatch U pat prev []"
| "search_from U pat prev (c # cs) =
     (if rmatch U pat prev (c # cs) then True else search_from U pat (Some c) cs)"

text \<open>\<open>re.search(pat, s)\<close> read as a truth value.\<close>

definition re_search :: "unicode_db \<Rightarrow> rx list \<Rightarrow> ustr \<Rightarrow> bool" where
  "re_search U pat s = search_from U pat None s"

definition lits :: "ustr \<Rightarrow> rx list" where
  "lits s = map (\<lambda>c. One (Lit c)) s"

text \<open>
  \<open>patron.lower()\<close> lowers the pattern's text before it is compiled. The escapes
  \<open>\b\<close> and \<open>\n\<close> are lower-case already, so on the parsed pattern this lowers the
  literal characters and the members of the classes.
\<close>

fun atom_lower :: "atom \<Rightarrow> atom" where
  "atom_lower (Lit a) = Lit (lower_l1 a)"
| "atom_lower (OneOf cs) = OneOf (map lower_l1 cs)"
| "atom_lower (NoneOf cs) = NoneOf (map lower_l1 cs)"
| "atom_lower Dot = Dot"

fun rx_lower :: "rx \<Rightarrow> rx" where
  "rx_lower (One a) = One (atom_lower a)"
| "rx_lower (Star a) = Star (atom_lower a)"
| "rx_lower WordB = WordB"

section \<open>The tables of the program\<close>

definition ESTRUCTURA_ESPERADA :: "ustr list" where
  "ESTRUCTURA_ESPERADA =
     [u ''resumen'',
      237 # u ''ndice'',
      u ''introducci'' @ 243 # u ''n'',
      u ''marco te'' @ 243 # u ''rico'',
      u ''metodolog'' @ 237 # u ''a'',
      u ''resultados'',
      u ''conclusiones'',
      u ''referencias bibliogr'' @ 225 # u ''ficas'',
      u ''anexos'']"

text \<open>A dictionary literal, read by \<open>items()\<close> in the order it is written.\<close>

definition SUB_SECCIONES_ESPERADAS :: "(ustr \<times> ustr list) list" where
  "SUB_SECCIONES_ESPERADAS =
     [(u ''marco te'' @ 243 # u ''rico'',
       [u ''revisi'' @ 243 # u ''n de la literatura'',
        u ''teor'' @ 237 # u ''as relacionadas'',
        u ''tabla de operacionalizaci'' @ 243 # u ''n de variables'']),
      (u ''metodolog'' @ 237 # u ''a'',
       [u ''dise'' @ 241 # u ''o de investigaci'' @ 243 # u ''n'',
        u ''objetivos generales'',
        u ''objetivos espec'' @ 237 # u ''ficos''])]"

text \<open>The heading patterns of \<open>dividir_secciones\<close>, as written (before lowering).\<close>

definition patrones :: "rx list list" where
  "patrones =
     [WordB # lits (u ''Resumen'') @ [WordB],
      WordB # lits (205 # u ''ndice'') @ [WordB],
      WordB # lits (u ''Introducci'' @ 243 # u ''n'') @ [WordB],
      WordB # lits (u ''Marco'') @ Star (NoneOf [10]) # lits (u ''Te'')
        @ One (OneOf [111, 243]) # lits (u ''rico'') @ [WordB],
      WordB # lits (u ''Metodolog'') @ One (OneOf [105, 237]) # lits (u ''a'') @ [WordB],
      WordB # lits (u ''Resultados'') @ [WordB],
      WordB # lits (u ''Conclusiones'') @ [WordB],
      WordB # lits (u ''Referencias'') @ [WordB],
      WordB # lits (u ''Anexos'') @ [WordB],
      WordB # lits (u ''Operacionalizaci'') @ One (OneOf [111, 243])
        # lits (u ''n de Variables'') @ [WordB]]"

definition tabla_patron :: "rx list" where
  "tabla_patron =
     lits (u ''variable'') @ Star Dot # lits (u ''dimensiones'') @ Star Dot
       # lits (u ''indicadores'') @ Star Dot # lits (u ''unidad de medida'')"

definition opvar :: ustr where
  "opvar = u ''operacionalizaci'' @ 243 # u ''n de variables''"

section \<open>The Section Map: a dictionary in insertion order\<close>

type_synonym secmap = "(ustr \<times> ustr) list"

text \<open>\<open>d[k] = v\<close>: a key already there keeps its place, a new one goes last.\<close>

fun dict_set :: "ustr \<Rightarrow> ustr \<Rightarrow> secmap \<Rightarrow> secmap" where
  "dict_set k v [] = [(k, v)]"
| "dict_set k v ((k', v') # m) =
     (if k' = k then (k, v) # m else (k', v') # dict_set k v m)"

definition dict_has :: "secmap \<Rightarrow> ustr \<Rightarrow> bool" where
  "dict_has m k \<longleftrightarrow> k \<in> set (map fst m)"

definition dict_get :: "secmap \<Rightarrow> ustr \<Rightarrow> ustr \<Rightarrow> ustr" where
  "dict_get m k d = (case map_of m k of None \<Rightarrow> d | Some v \<Rightarrow> v)"

section \<open>dividir_secciones\<close>

record seg_state =
  secciones :: secmap
  current_section :: "ustr option"
  current_content :: "ustr list"

definition seg_init :: seg_state where
  "seg_init = \<lparr>secciones = [], current_section = None, current_content = []\<rparr>"

text \<open>Python's truth value of \<open>current_section\<close>: \<open>None\<close> and \<open>""\<close> are false.\<close>

fun truthy :: "ustr option \<Rightarrow> bool" where
  "truthy None = False"
| "truthy (Some s) = (s \<noteq> [])"

text \<open>\<open>secciones[current_section] = "\n".join(current_content).strip()\<close>, when open.\<close>

definition flush :: "seg_state \<Rightarrow> secmap" where
  "flush st =
     (case current_section st of
        None \<Rightarrow> secciones st
      | Some name \<Rightarrow>
          if name \<noteq> [] then dict_set name (strip (join_nl (current_content st))) (secciones st)
          else secciones st)"

text \<open>\<open>re.sub(r"[^a-zA-Z...]", " ", line)\<close> with the seven accented letters.\<close>

definition is_letter :: "nat \<Rightarrow> bool" where
  "is_letter c \<longleftrightarrow>
     (97 \<le> c \<and> c \<le> 122) \<or> (65 \<le> c \<and> c \<le> 90)
     \<or> c \<in> set [225, 233, 237, 243, 250, 252, 241]"

definition sanitize :: "ustr \<Rightarrow> ustr" where
  "sanitize line = map (\<lambda>c. if is_letter c then c else 32) line"

text \<open>
  The inner loop over the patterns: the first pattern found in the line flushes the
  open section, names the new one after the line and ends the loop (\<open>break\<close>). The
  truth value returned is \<open>matched\<close>.
\<close>

fun try_patrones :: "unicode_db \<Rightarrow> rx list list \<Rightarrow> ustr \<Rightarrow> seg_state \<Rightarrow> seg_state \<times> bool" where
  "try_patrones U [] line st = (st, False)"
| "try_patrones U (patron # rest) line st =
     (if re_search U (map rx_lower patron) line
      then (\<lparr>secciones = flush st, current_section = Some (sanitize line),
             current_content = []\<rparr>, True)
      else try_patrones U rest line st)"

text \<open>
  One turn of the loop over the lines, in the order of the source: the heading
  patterns, then the table pattern (which renames the open section and keeps the line),
  then the line is kept as content if neither matched and a section is open.
\<close>

fun tabla_check :: "unicode_db \<Rightarrow> ustr \<Rightarrow> seg_state \<times> bool \<Rightarrow> seg_state \<times> bool" where
  "tabla_check U line (st, matched) =
     (if re_search U tabla_patron line
      then (st\<lparr>current_section := Some opvar,
                current_content := current_content st @ [line]\<rparr>, True)
      else (st, matched))"

fun keep_line :: "ustr \<Rightarrow> seg_state \<times> bool \<Rightarrow> seg_state" where
  "keep_line line (st, matched) =
     (if \<not> matched \<and> truthy (current_section st)
      then st\<lparr>current_content := current_content st @ [line]\<rparr>
      else st)"

definition step_line :: "unicode_db \<Rightarrow> seg_state \<Rightarrow> ustr \<Rightarrow> seg_state" where
  "step_line U st line = keep_line line (tabla_check U line (try_patrones U patrones line st))"

definition step :: "unicode_db \<Rightarrow> seg_state \<Rightarrow> ustr \<Rightarrow> seg_state" where
  "step U st raw = step_line U st (lower U (strip raw))"

definition dividir_secciones :: "unicode_db \<Rightarrow> ustr \<Rightarrow> secmap" where
  "dividir_secciones U texto = flush (foldl (step U) seg_init (split_on 10 texto))"

section \<open>The validators\<close>

definition msg_seccion :: "ustr \<Rightarrow> ustr" where
  "msg_seccion seccion =
     u ''Falta la secci'' @ 243 # u ''n: '' @ capitalize seccion @ u ''.''"

definition revisar_estructura :: "secmap \<Rightarrow> ustr list" where
  "revisar_estructura secs =
     map msg_seccion (filter (\<lambda>seccion. \<not> dict_has secs seccion) ESTRUCTURA_ESPERADA)"

definition msg_subseccion :: "ustr \<Rightarrow> ustr \<Rightarrow> ustr" where
  "msg_subseccion sub seccion =
     u ''Falta la subsecci'' @ 243 # u ''n: '' @ 39 # sub @ 39 # u '' en la secci'' @ 243
       # u ''n '' @ capitalize seccion @ u ''.''"

definition tabla_marker :: ustr where
  "tabla_marker = u ''tabla de operacionalizaci'' @ 243 # u ''n de variables''"

text \<open>The inner loop over the markers of one parent section.\<close>

fun revisar_subs :: "secmap \<Rightarrow> ustr \<Rightarrow> ustr \<Rightarrow> ustr list \<Rightarrow> ustr list" where
  "revisar_subs secs seccion contenido [] = []"
| "revisar_subs secs seccion contenido (sub # subs) =
     (if sub = tabla_marker \<and> dict_has secs opvar
      then revisar_subs secs seccion contenido subs
      else if \<not> py_in sub contenido
      then msg_subseccion sub seccion # revisar_subs secs seccion contenido subs
      else revisar_subs secs seccion contenido subs)"

definition revisar_subsecciones :: "secmap \<Rightarrow> ustr list" where
  "revisar_subsecciones secs =
     concat (map (\<lambda>(seccion, subsecciones).
                    revisar_subs secs seccion (dict_get secs seccion []) subsecciones)
                 SUB_SECCIONES_ESPERADAS)"

definition intro_key :: ustr where
  "intro_key = u ''introducci'' @ 243 # u ''n''"

definition msg_intro :: ustr where
  "msg_intro = u ''La secci'' @ 243 # u ''n de Introducci'' @ 243 # u ''n parece demasiado corta.''"

definition revisar_contenido :: "secmap \<Rightarrow> ustr list" where
  "revisar_contenido secs =
     (let introduccion = dict_get secs intro_key []
      in if length (py_split introduccion) < 100 then [msg_intro] else [])"

definition metod_key :: ustr where
  "metod_key = u ''metodolog'' @ 237 # u ''a''"

definition diseno :: ustr where
  "diseno = u ''dise'' @ 241 # u ''o de investigaci'' @ 243 # u ''n''"

definition obj_generales :: ustr where
  "obj_generales = u ''objetivos generales''"

definition obj_especificos :: ustr where
  "obj_especificos = u ''objetivos espec'' @ 237 # u ''ficos''"

definition msg_diseno :: ustr where
  "msg_diseno =
     u ''Falta la descripci'' @ 243 # u ''n del dise'' @ 241 # u ''o de investigaci'' @ 243
       # u ''n.''"

definition msg_objetivos :: ustr where
  "msg_objetivos = u ''Faltan los objetivos generales o espec'' @ 237 # u ''ficos.''"

definition revisar_metodologia :: "secmap \<Rightarrow> ustr list" where
  "revisar_metodologia secs =
     (let metodologia = dict_get secs metod_key []
      in (if \<not> py_in diseno metodologia then [msg_diseno] else [])
         @ (if \<not> py_in obj_generales metodologia \<and> \<not> py_in obj_especificos metodologia
            then [msg_objetivos] else []))"

definition analizar_texto :: "unicode_db \<Rightarrow> ustr \<Rightarrow> ustr list" where
  "analizar_texto U texto =
     (let secs = dividir_secciones U texto
      in revisar_estructura secs @ revisar_subsecciones secs @ revisar_contenido secs)"

text \<open>
  The three lists that \<open>uploader\<close> hands to the result page, from the text that the
  PDF reader returned: content, methodology, structure.
\<close>

definition uploader_lists :: "unicode_db \<Rightarrow> ustr \<Rightarrow> ustr list \<times> ustr list \<times> ustr list" where
  "uploader_lists U texto =
     (let secs = dividir_secciones U texto;
          observaciones_contenido = revisar_contenido secs;
          observaciones_metodologia = revisar_metodologia secs;
          observaciones_estructura = analizar_texto U texto
      in (observaciones_contenido, observaciones_metodologia, observaciones_estructura))"

section \<open>Facts about strings and dictionaries\<close>

lemma starts_with_iff: "starts_with p s \<longleftrightarrow> (\<exists>b. s = p @ b)"
  by (induction p s rule: starts_with.induct) auto

lemma py_in_iff: "py_in p s \<longleftrightarrow> (\<exists>a b. s = a @ p @ b)"
proof (induction s)
  case Nil
  then show ?case by auto
next
  case (Cons c cs)
  have "(\<exists>a b. c # cs = a @ p @ b) \<longleftrightarrow> (\<exists>b. c # cs = p @ b) \<or> (\<exists>a b. cs = a @ p @ b)"
  proof
    assume "\<exists>a b. c # cs = a @ p @ b"
    then obtain a b where ab: "c # cs = a @ p @ b" by blast
    show "(\<exists>b. c # cs = p @ b) \<or> (\<exists>a b. cs = a @ p @ b)"
    proof (cases a)
      case Nil
      with ab show ?thesis by auto
    next
      case (Cons x a')
      with ab have "cs = a' @ p @ b" by simp
      then show ?thesis by blast
    qed
  next
    assume "(\<exists>b. c # cs = p @ b) \<or> (\<exists>a b. cs = a @ p @ b)"
    then show "\<exists>a b. c # cs = a @ p @ b"
    proof
      assume "\<exists>b. c # cs = p @ b"
      then obtain b where "c # cs = [] @ p @ b" by auto
      then show ?thesis by blast
    next
      assume "\<exists>a b. cs = a @ p @ b"
      then obtain a b where "c # cs = (c # a) @ p @ b" by auto
      then show ?thesis by blast
    qed
  qed
  with Cons show ?case by (simp add: starts_with_iff)
qed

lemma map_fst_dict_set:
  "map fst (dict_set k v m) = (if k \<in> set (map fst m) then map fst m else map fst m @ [k])"
proof (induction m)
  case Nil
  show ?case by simp
next
  case (Cons p m)
  obtain k' v' where p: "p = (k', v')" by (cases p)
  show ?case
  proof (cases "k' = k")
    case True
    with p show ?thesis by simp
  next
    case False
    with p Cons show ?thesis by simp
  qed
qed

lemma keys_dict_set: "fst ` set (dict_set k v m) = insert k (fst ` set m)"
proof -
  have "set (map fst (dict_set k v m)) = insert k (set (map fst m))"
    unfolding map_fst_dict_set by auto
  then show ?thesis by simp
qed

lemma dict_has_set: "dict_has (dict_set k v m) s \<longleftrightarrow> s = k \<or> dict_has m s"
  by (auto simp: dict_has_def keys_dict_set)

lemma dict_get_absent: "\<not> dict_has m k \<Longrightarrow> dict_get m k d = d"
  by (simp add: dict_has_def dict_get_def map_of_eq_None_iff [THEN iffD2])

lemma count_map_filter:
  "distinct (map f xs) \<Longrightarrow> x \<in> set xs \<Longrightarrow>
   count_list (map f (filter P xs)) (f x) = (if P x then 1 else 0)"
proof (induction xs)
  case Nil
  then show ?case by simp
next
  case (Cons y ys)
  show ?case
  proof (cases "x = y")
    case True
    with Cons.prems have "f y \<notin> set (map f (filter P ys))" by auto
    then have "count_list (map f (filter P ys)) (f y) = 0" by (simp add: count_list_0_iff)
    with True show ?thesis by simp
  next
    case False
    with Cons.prems have xin: "x \<in> set ys" and ne: "f y \<noteq> f x" by auto
    with Cons have "count_list (map f (filter P ys)) (f x) = (if P x then 1 else 0)" by simp
    with ne show ?thesis by simp
  qed
qed

lemma msg_seccion_distinct: "distinct (map msg_seccion ESTRUCTURA_ESPERADA)"
  by (simp add: msg_seccion_def ESTRUCTURA_ESPERADA_def u_def upper_l1_def lower_l1_def)

section \<open>The structural validator\<close>

text \<open>
  C5. For every Section Map, \<open>revisar_estructura\<close> returns the message
  "Falta la seccion: <Capitalized name>." (with o acute; the source's text of the missing-section
  observation) for the expected names that are not keys of the map, in the order of
  \<open>ESTRUCTURA_ESPERADA\<close>; each absent expected name has exactly one observation and
  each present one has none; and a key that is not an expected name changes nothing.
\<close>

theorem revisar_estructura_spec:
  "revisar_estructura secs
     = map (\<lambda>s. u ''Falta la secci'' @ 243 # u ''n: '' @ capitalize s @ u ''.'')
         (filter (\<lambda>s. s \<notin> fst ` set secs) ESTRUCTURA_ESPERADA)
   \<and> (\<forall>s \<in> set ESTRUCTURA_ESPERADA.
         count_list (revisar_estructura secs) (msg_seccion s)
           = (if s \<in> fst ` set secs then 0 else 1))
   \<and> (\<forall>k v. k \<notin> set ESTRUCTURA_ESPERADA \<longrightarrow>
         revisar_estructura (dict_set k v secs) = revisar_estructura secs)"
proof (intro conjI ballI allI impI)
  show "revisar_estructura secs
     = map (\<lambda>s. u ''Falta la secci'' @ 243 # u ''n: '' @ capitalize s @ u ''.'')
         (filter (\<lambda>s. s \<notin> fst ` set secs) ESTRUCTURA_ESPERADA)"
    unfolding revisar_estructura_def dict_has_def msg_seccion_def by simp
next
  fix s assume "s \<in> set ESTRUCTURA_ESPERADA"
  then show "count_list (revisar_estructura secs) (msg_seccion s)
           = (if s \<in> fst ` set secs then 0 else 1)"
    unfolding revisar_estructura_def
    using count_map_filter [OF msg_seccion_distinct, of s "\<lambda>seccion. \<not> dict_has secs seccion"]
    by (simp add: dict_has_def)
next
  fix k v assume k: "k \<notin> set ESTRUCTURA_ESPERADA"
  have "filter (\<lambda>s. \<not> dict_has (dict_set k v secs) s) ESTRUCTURA_ESPERADA
      = filter (\<lambda>s. \<not> dict_has secs s) ESTRUCTURA_ESPERADA"
    by (rule filter_cong) (use k in \<open>auto simp: dict_has_set\<close>)
  then show "revisar_estructura (dict_set k v secs) = revisar_estructura secs"
    by (simp add: revisar_estructura_def)
qed

theorem revisar_estructura_spec_witness:
  "u ''resumen'' \<in> set ESTRUCTURA_ESPERADA
   \<and> count_list (revisar_estructura [(u ''resumen'', [])]) (msg_seccion (u ''resumen'')) = 0
   \<and> u ''anexos'' \<in> set ESTRUCTURA_ESPERADA
   \<and> count_list (revisar_estructura [(u ''resumen'', [])]) (msg_seccion (u ''anexos'')) = 1
   \<and> u ''portada'' \<notin> set ESTRUCTURA_ESPERADA
   \<and> revisar_estructura (dict_set (u ''portada'') [] [(u ''resumen'', [])])
       = revisar_estructura [(u ''resumen'', [])]"
proof -
  have r: "u ''resumen'' \<in> set ESTRUCTURA_ESPERADA"
    and a: "u ''anexos'' \<in> set ESTRUCTURA_ESPERADA"
    and p: "u ''portada'' \<notin> set ESTRUCTURA_ESPERADA"
    by (simp_all add: ESTRUCTURA_ESPERADA_def u_def)
  note spec = revisar_estructura_spec [of "[(u ''resumen'', [])]"]
  note cnt = spec [THEN conjunct2, THEN conjunct1, rule_format]
  note extra = spec [THEN conjunct2, THEN conjunct2, rule_format]
  have c0: "count_list (revisar_estructura [(u ''resumen'', [])]) (msg_seccion (u ''resumen'')) = 0"
    using cnt [OF r] by simp
  have c1: "count_list (revisar_estructura [(u ''resumen'', [])]) (msg_seccion (u ''anexos'')) = 1"
    using cnt [OF a] by (simp add: u_def)
  have e: "revisar_estructura (dict_set (u ''portada'') [] [(u ''resumen'', [])])
       = revisar_estructura [(u ''resumen'', [])]"
    using extra [OF p] .
  from r a p c0 c1 e show ?thesis by blast
qed

section \<open>The content validators\<close>

lemma split_ws_word:
  "\<forall>c\<in>set w. \<not> is_space c \<Longrightarrow> split_ws cur (w @ s) = split_ws (cur @ w) s"
  by (induction w arbitrary: cur) simp_all

lemma split_ws_spaces:
  "\<forall>c\<in>set sp. is_space c \<Longrightarrow> split_ws [] (sp @ s) = split_ws [] s"
  by (induction sp) simp_all

lemma split_ws_close:
  "cur \<noteq> [] \<Longrightarrow> sp \<noteq> [] \<Longrightarrow> \<forall>c\<in>set sp. is_space c \<Longrightarrow>
   split_ws cur (sp @ s) = cur # split_ws [] s"
  by (cases sp) (simp_all add: split_ws_spaces)

lemma split_ws_tokens:
  assumes "\<forall>(w, sp)\<in>set pairs. w \<noteq> [] \<and> (\<forall>c\<in>set w. \<not> is_space c)
             \<and> sp \<noteq> [] \<and> (\<forall>c\<in>set sp. is_space c)"
    and "\<forall>c\<in>set lastw. \<not> is_space c"
  shows "split_ws [] (concat (map (\<lambda>(w, sp). w @ sp) pairs) @ lastw)
           = map fst pairs @ (if lastw = [] then [] else [lastw])"
  using assms
proof (induction pairs)
  case Nil
  then show ?case using split_ws_word [of lastw "[]" "[]"] by simp
next
  case (Cons p pairs)
  obtain w sp where p: "p = (w, sp)" by (cases p)
  from Cons.prems p have w: "w \<noteq> []" "\<forall>c\<in>set w. \<not> is_space c"
    and sp: "sp \<noteq> []" "\<forall>c\<in>set sp. is_space c" by auto
  let ?rest = "concat (map (\<lambda>(w, sp). w @ sp) pairs) @ lastw"
  have "split_ws [] (w @ sp @ ?rest) = split_ws w (sp @ ?rest)"
    using split_ws_word [OF w(2), of "[]"] by simp
  also have "\<dots> = w # split_ws [] ?rest"
    using split_ws_close [OF w(1) sp] .
  also have "split_ws [] ?rest = map fst pairs @ (if lastw = [] then [] else [lastw])"
    using Cons by simp
  finally show ?case using p by simp
qed

text \<open>
  C6. Any string is some leading whitespace, then tokens each followed by a run of
  whitespace, then possibly a last token. If the body under the key of the
  introduction (the empty string if the key is absent) is read this way,
  \<open>split()\<close> returns exactly these tokens, and \<open>revisar_contenido\<close> returns the
  short-introduction observation if there are fewer than 100 of them and nothing
  otherwise; without the key the observation is returned.
\<close>

theorem revisar_contenido_spec:
  assumes "\<forall>c\<in>set lead. is_space c"
    and "\<forall>(w, sp)\<in>set pairs. w \<noteq> [] \<and> (\<forall>c\<in>set w. \<not> is_space c)
           \<and> sp \<noteq> [] \<and> (\<forall>c\<in>set sp. is_space c)"
    and "\<forall>c\<in>set lastw. \<not> is_space c"
    and "dict_get secs intro_key [] = lead @ concat (map (\<lambda>(w, sp). w @ sp) pairs) @ lastw"
  shows "py_split (dict_get secs intro_key [])
           = map fst pairs @ (if lastw = [] then [] else [lastw])
         \<and> revisar_contenido secs
           = (if length pairs + (if lastw = [] then 0 else 1) < 100 then [msg_intro] else [])
         \<and> (intro_key \<notin> fst ` set secs \<longrightarrow> revisar_contenido secs = [msg_intro])"
proof -
  have sp: "py_split (dict_get secs intro_key [])
           = map fst pairs @ (if lastw = [] then [] else [lastw])"
    unfolding py_split_def assms(4)
    using split_ws_spaces [OF assms(1)] split_ws_tokens [OF assms(2,3)] by simp
  have rc: "revisar_contenido secs
           = (if length pairs + (if lastw = [] then 0 else 1) < 100 then [msg_intro] else [])"
    unfolding revisar_contenido_def Let_def sp by simp
  have ab: "intro_key \<notin> fst ` set secs \<longrightarrow> revisar_contenido secs = [msg_intro]"
    using dict_get_absent [of secs intro_key "[]"]
    by (simp add: revisar_contenido_def dict_has_def py_split_def)
  from sp rc ab show ?thesis by blast
qed

theorem revisar_contenido_spec_witness:
  "revisar_contenido
     [(intro_key, concat (map (\<lambda>(w, sp). w @ sp) (replicate 98 ([97], [32]))) @ [97])]
     = [msg_intro]
   \<and> revisar_contenido
     [(intro_key, concat (map (\<lambda>(w, sp). w @ sp) (replicate 99 ([97], [32]))) @ [97])]
     = []
   \<and> length (py_split
        (concat (map (\<lambda>(w, sp). w @ sp) (replicate 98 ([97], [32]))) @ [97])) = 99"
proof -
  have sp: "\<forall>c\<in>set ([]::ustr). is_space c" by simp
  have lw: "\<forall>c\<in>set [97::nat]. \<not> is_space c" by (simp add: is_space_def)
  have pr: "\<forall>(w, sp)\<in>set (replicate n ([97::nat], [32::nat])).
      w \<noteq> [] \<and> (\<forall>c\<in>set w. \<not> is_space c) \<and> sp \<noteq> [] \<and> (\<forall>c\<in>set sp. is_space c)" for n
    by (simp add: is_space_def)
  have g: "dict_get [(intro_key, b)] intro_key [] = [] @ b" for b
    by (simp add: dict_get_def)
  have a: "revisar_contenido
     [(intro_key, concat (map (\<lambda>(w, sp). w @ sp) (replicate 98 ([97], [32]))) @ [97])]
     = [msg_intro]"
    using revisar_contenido_spec [OF sp pr lw g, of 98] by simp
  have b: "revisar_contenido
     [(intro_key, concat (map (\<lambda>(w, sp). w @ sp) (replicate 99 ([97], [32]))) @ [97])]
     = []"
    using revisar_contenido_spec [OF sp pr lw g, of 99] by simp
  have c: "length (py_split
        (concat (map (\<lambda>(w, sp). w @ sp) (replicate 98 ([97], [32]))) @ [97])) = 99"
    using revisar_contenido_spec [OF sp pr lw g, of 98] by (simp add: dict_get_def)
  from a b c show ?thesis by blast
qed

lemma msg_metod_ne: "msg_diseno \<noteq> msg_objetivos"
  by (simp add: msg_diseno_def msg_objetivos_def u_def)

text \<open>
  C7. On the body under the key of the methodology (the empty string if the key is
  absent), \<open>revisar_metodologia\<close> returns the research-design observation exactly when
  the design phrase does not occur in the body, and the objectives observation exactly
  when neither objectives phrase occurs; each is returned at most once and nothing else
  is returned.
\<close>

theorem revisar_metodologia_spec:
  "(msg_diseno \<in> set (revisar_metodologia secs)
      \<longleftrightarrow> \<not> (\<exists>a b. dict_get secs metod_key [] = a @ diseno @ b))
   \<and> (msg_objetivos \<in> set (revisar_metodologia secs)
      \<longleftrightarrow> \<not> (\<exists>a b. dict_get secs metod_key [] = a @ obj_generales @ b)
        \<and> \<not> (\<exists>a b. dict_get secs metod_key [] = a @ obj_especificos @ b))
   \<and> count_list (revisar_metodologia secs) msg_objetivos
       = (if msg_objetivos \<in> set (revisar_metodologia secs) then 1 else 0)
   \<and> count_list (revisar_metodologia secs) msg_diseno
       = (if msg_diseno \<in> set (revisar_metodologia secs) then 1 else 0)
   \<and> set (revisar_metodologia secs) \<subseteq> {msg_diseno, msg_objetivos}
   \<and> (metod_key \<notin> fst ` set secs \<longrightarrow> dict_get secs metod_key [] = [])"
  unfolding py_in_iff [symmetric]
  using msg_metod_ne msg_metod_ne [symmetric] dict_get_absent [of secs metod_key "[]"]
  by (auto simp: revisar_metodologia_def Let_def dict_has_def)

theorem revisar_metodologia_spec_witness:
  "msg_objetivos \<notin> set (revisar_metodologia [(metod_key, u ''los objetivos generales son'')])
   \<and> msg_diseno \<in> set (revisar_metodologia [(metod_key, u ''los objetivos generales son'')])
   \<and> count_list (revisar_metodologia []) msg_objetivos = 1
   \<and> dict_get [] metod_key [] = []"
proof -
  note a = revisar_metodologia_spec [of "[(metod_key, u ''los objetivos generales son'')]"]
  note b = revisar_metodologia_spec [of "[]"]
  have g: "dict_get [(metod_key, u ''los objetivos generales son'')] metod_key []
      = u ''los '' @ obj_generales @ u '' son''"
    by (simp add: dict_get_def obj_generales_def u_def)
  have 1: "msg_objetivos \<notin> set (revisar_metodologia [(metod_key, u ''los objetivos generales son'')])"
    using a [THEN conjunct2, THEN conjunct1] g by blast
  have nd: "\<not> py_in diseno (u ''los objetivos generales son'')"
    by (simp add: diseno_def u_def)
  have 2: "msg_diseno \<in> set (revisar_metodologia [(metod_key, u ''los objetivos generales son'')])"
    using a [THEN conjunct1] nd by (simp add: py_in_iff dict_get_def)
  have e: "dict_get [] metod_key [] = []"
    using b [THEN conjunct2, THEN conjunct2, THEN conjunct2, THEN conjunct2, THEN conjunct2] by simp
  have "\<not> (\<exists>a b. dict_get [] metod_key [] = a @ obj_generales @ b)"
    "\<not> (\<exists>a b. dict_get [] metod_key [] = a @ obj_especificos @ b)"
    unfolding e by (simp_all add: obj_generales_def obj_especificos_def u_def)
  then have "msg_objetivos \<in> set (revisar_metodologia [])"
    using b [THEN conjunct2, THEN conjunct1] by blast
  then have 3: "count_list (revisar_metodologia []) msg_objetivos = 1"
    using b [THEN conjunct2, THEN conjunct2, THEN conjunct1] by simp
  from 1 2 3 e show ?thesis by blast
qed

section \<open>The three lists of the result page\<close>

lemmas run_defs = u_def lower_def lower_l1_def upper_l1_def strip_def is_space_def is_word_def
  re_search_def lits_def patrones_def tabla_patron_def opvar_def flush_def is_letter_def sanitize_def
  step_def step_line_def dividir_secciones_def seg_init_def latin1_db_def

lemma dividir_empty: "dividir_secciones U [] = []"
  by (simp add: run_defs)

text \<open>
  C1 (as amended). For every text, the content list is the output of
  \<open>revisar_contenido\<close>, the methodology list is the output of \<open>revisar_metodologia\<close>,
  and the structure list is the output of \<open>revisar_estructura\<close>, then that of
  \<open>revisar_subsecciones\<close>, then that of \<open>revisar_contenido\<close> again, all on the
  Section Map of the text.
\<close>

theorem uploader_lists_spec:
  "uploader_lists U texto =
     (revisar_contenido (dividir_secciones U texto),
      revisar_metodologia (dividir_secciones U texto),
      revisar_estructura (dividir_secciones U texto)
        @ revisar_subsecciones (dividir_secciones U texto)
        @ revisar_contenido (dividir_secciones U texto))"
  by (simp add: uploader_lists_def analizar_texto_def Let_def)

text \<open>
  On the empty text the structure list is not the structural and subsection
  observations alone: it ends with the short-introduction observation.
\<close>

theorem uploader_structural_counterexample:
  "snd (snd (uploader_lists latin1_db []))
     \<noteq> revisar_estructura (dividir_secciones latin1_db [])
         @ revisar_subsecciones (dividir_secciones latin1_db [])"
proof -
  have "revisar_contenido [] = [msg_intro]"
    by (simp add: revisar_contenido_def dict_get_def py_split_def)
  then show ?thesis
    by (simp add: uploader_lists_def analizar_texto_def Let_def dividir_empty)
qed

section \<open>The table pattern\<close>

lemma rmatch_lits:
  "(\<And>p. rmatch U r p s) \<Longrightarrow> rmatch U (lits v @ r) prev (v @ s)"
  by (induction v arbitrary: prev) (simp_all add: lits_def)

lemma rmatch_star_here: "rmatch U r prev s \<Longrightarrow> rmatch U (Star a # r) prev s"
  by (cases s) simp_all

lemma rmatch_star_skip:
  "\<forall>c\<in>set b. atom_ok a c \<Longrightarrow> (\<And>p. rmatch U r p s) \<Longrightarrow> rmatch U (Star a # r) prev (b @ s)"
  by (induction b arbitrary: prev) (simp_all add: rmatch_star_here)

lemma search_from_skip:
  "(\<And>p. rmatch U pat p s) \<Longrightarrow> search_from U pat prev (a @ s)"
proof (induction a arbitrary: prev)
  case Nil
  then show ?case by (cases s) simp_all
next
  case (Cons x a)
  then show ?case by simp
qed

lemma tabla_patron_found:
  assumes "10 \<notin> set b" "10 \<notin> set c" "10 \<notin> set d"
  shows "re_search U tabla_patron
           (a @ u ''variable'' @ b @ u ''dimensiones'' @ c @ u ''indicadores'' @ d
              @ u ''unidad de medida'' @ e)"
proof -
  have dot: "\<forall>x\<in>set b. atom_ok Dot x" "\<forall>x\<in>set c. atom_ok Dot x" "\<forall>x\<in>set d. atom_ok Dot x"
    using assms by auto
  have m4: "rmatch U (lits (u ''unidad de medida'') @ []) p (u ''unidad de medida'' @ e)" for p
    by (rule rmatch_lits) simp
  have m3: "rmatch U (lits (u ''indicadores'') @ Star Dot # lits (u ''unidad de medida'') @ []) p
              (u ''indicadores'' @ d @ u ''unidad de medida'' @ e)" for p
    by (rule rmatch_lits, rule rmatch_star_skip [OF dot(3)], rule m4)
  have m2: "rmatch U (lits (u ''dimensiones'') @ Star Dot # lits (u ''indicadores'') @ Star Dot
                # lits (u ''unidad de medida'') @ []) p
              (u ''dimensiones'' @ c @ u ''indicadores'' @ d @ u ''unidad de medida'' @ e)" for p
    by (rule rmatch_lits, rule rmatch_star_skip [OF dot(2)], rule m3)
  have m1: "rmatch U (lits (u ''variable'') @ Star Dot # lits (u ''dimensiones'') @ Star Dot
                # lits (u ''indicadores'') @ Star Dot # lits (u ''unidad de medida'') @ []) p
              (u ''variable'' @ b @ u ''dimensiones'' @ c @ u ''indicadores'' @ d
                 @ u ''unidad de medida'' @ e)" for p
    by (rule rmatch_lits, rule rmatch_star_skip [OF dot(1)], rule m2)
  show ?thesis
    unfolding re_search_def tabla_patron_def
    using search_from_skip [OF m1, of None a] by simp
qed

lemma try_patrones_cases:
  "try_patrones U ps line st =
     (if \<exists>p\<in>set ps. re_search U (map rx_lower p) line
      then (\<lparr>secciones = flush st, current_section = Some (sanitize line),
             current_content = []\<rparr>, True)
      else (st, False))"
  by (induction ps) simp_all

lemma opvar_nonempty: "opvar \<noteq> []"
  by (simp add: opvar_def u_def)

lemma step_tabla:
  assumes "re_search U tabla_patron (lower U (strip raw))"
  shows "current_section (step U st raw) = Some opvar"
    and "secciones (step U st raw) = secciones (fst (try_patrones U patrones (lower U (strip raw)) st))"
    and "current_content (step U st raw)
           = current_content (fst (try_patrones U patrones (lower U (strip raw)) st))
               @ [lower U (strip raw)]"
  using assms
  by (cases "try_patrones U patrones (lower U (strip raw)) st"; simp add: step_def step_line_def)+

text \<open>
  C2 (as amended). For every line whose normalised text (trimmed, lower case) has the
  four tokens "variable", "dimensiones", "indicadores" and "unidad de medida" in this
  order, each after the end of the one before and with no line break between them, the
  table pattern is found in the line; the turn of the loop on this line leaves the
  section "operacionalizacion de variables" open and the line is the last one of
  its buffer.
\<close>

theorem tabla_patron_in_order:
  assumes "lower U (strip raw)
             = a @ u ''variable'' @ b @ u ''dimensiones'' @ c @ u ''indicadores'' @ d
                 @ u ''unidad de medida'' @ e"
    and "10 \<notin> set b" and "10 \<notin> set c" and "10 \<notin> set d"
  shows "re_search U tabla_patron (lower U (strip raw))
         \<and> current_section (step U st raw) = Some opvar
         \<and> current_content (step U st raw)
             = current_content (fst (try_patrones U patrones (lower U (strip raw)) st))
                 @ [lower U (strip raw)]"
proof -
  have found: "re_search U tabla_patron (lower U (strip raw))"
    unfolding assms(1) by (rule tabla_patron_found [OF assms(2-4)])
  from step_tabla(1,3) [OF found] found show ?thesis by blast
qed

theorem tabla_patron_in_order_witness:
  "re_search latin1_db tabla_patron
     (lower latin1_db (strip (u ''Variable | Dimensiones | Indicadores | Unidad de medida '')))
   \<and> current_section
        (step latin1_db seg_init (u ''Variable | Dimensiones | Indicadores | Unidad de medida ''))
       = Some opvar"
proof -
  have l: "lower latin1_db (strip (u ''Variable | Dimensiones | Indicadores | Unidad de medida ''))
      = [] @ u ''variable'' @ u '' | '' @ u ''dimensiones'' @ u '' | '' @ u ''indicadores''
          @ u '' | '' @ u ''unidad de medida'' @ []"
    by (simp add: u_def lower_def lower_l1_def strip_def is_space_def)
  have n: "10 \<notin> set (u '' | '')" by (simp add: u_def)
  from tabla_patron_in_order [OF l n n n, of seg_init] show ?thesis by blast
qed

text \<open>
  A line that has the four tokens in another order: the table pattern is not found
  in it, and the turn of the loop on it opens no section.
\<close>

theorem tabla_patron_any_order_counterexample:
  "py_in (u ''variable'') (u ''unidad de medida, indicadores, dimensiones, variable'')
   \<and> py_in (u ''dimensiones'') (u ''unidad de medida, indicadores, dimensiones, variable'')
   \<and> py_in (u ''indicadores'') (u ''unidad de medida, indicadores, dimensiones, variable'')
   \<and> py_in (u ''unidad de medida'') (u ''unidad de medida, indicadores, dimensiones, variable'')
   \<and> \<not> re_search latin1_db tabla_patron
         (lower latin1_db (strip (u ''unidad de medida, indicadores, dimensiones, variable'')))
   \<and> current_section
        (step latin1_db seg_init (u ''unidad de medida, indicadores, dimensiones, variable''))
       \<noteq> Some opvar"
  by (simp add: run_defs)

text \<open>
  C4. When no heading pattern is found in a line, the table pattern is, and a section
  other than the table's is open, the turn of the loop writes nothing into the Section
  Map: it only renames the open section and appends the line to the buffer. The lines
  gathered for the section that was open stay in the buffer and are flushed under the
  table's key; the section that was open gets no entry from them.
\<close>

theorem tabla_without_flush:
  assumes "\<not> (\<exists>p\<in>set patrones. re_search U (map rx_lower p) (lower U (strip raw)))"
    and "re_search U tabla_patron (lower U (strip raw))"
    and "current_section st = Some cur" and "cur \<noteq> opvar"
  shows "step U st raw
           = st\<lparr>current_section := Some opvar,
                current_content := current_content st @ [lower U (strip raw)]\<rparr>
         \<and> secciones (step U st raw) = secciones st
         \<and> flush (step U st raw)
             = dict_set opvar (strip (join_nl (current_content st @ [lower U (strip raw)])))
                 (secciones st)
         \<and> (\<not> dict_has (secciones st) cur \<longrightarrow> \<not> dict_has (flush (step U st raw)) cur)"
proof -
  have s: "step U st raw
           = st\<lparr>current_section := Some opvar,
                current_content := current_content st @ [lower U (strip raw)]\<rparr>"
    using assms(1,2) by (simp add: step_def step_line_def try_patrones_cases)
  have f: "flush (step U st raw)
             = dict_set opvar (strip (join_nl (current_content st @ [lower U (strip raw)])))
                 (secciones st)"
    unfolding s using opvar_nonempty by (simp add: flush_def)
  have k: "\<not> dict_has (secciones st) cur \<longrightarrow> \<not> dict_has (flush (step U st raw)) cur"
    unfolding f using assms(4) by (simp add: dict_has_set)
  from s f k show ?thesis by simp
qed

theorem tabla_without_flush_witness:
  "step latin1_db
     \<lparr>secciones = [], current_section = Some (u ''resumen''), current_content = [u ''texto'']\<rparr>
     (u ''variable, dimensiones, indicadores, unidad de medida'')
   = \<lparr>secciones = [], current_section = Some opvar,
      current_content = [u ''texto'', u ''variable, dimensiones, indicadores, unidad de medida'']\<rparr>
   \<and> \<not> dict_has (flush (step latin1_db
     \<lparr>secciones = [], current_section = Some (u ''resumen''), current_content = [u ''texto'']\<rparr>
     (u ''variable, dimensiones, indicadores, unidad de medida''))) (u ''resumen'')"
proof -
  let ?raw = "u ''variable, dimensiones, indicadores, unidad de medida''"
  let ?st = "\<lparr>secciones = [], current_section = Some (u ''resumen''),
              current_content = [u ''texto'']\<rparr>"
  have l: "lower latin1_db (strip ?raw) = ?raw"
    by (simp add: u_def lower_def lower_l1_def strip_def is_space_def)
  have h: "\<not> (\<exists>p\<in>set patrones. re_search latin1_db (map rx_lower p) (lower latin1_db (strip ?raw)))"
    unfolding l by (simp add: run_defs)
  have t: "re_search latin1_db tabla_patron (lower latin1_db (strip ?raw))"
    unfolding l by (simp add: run_defs)
  have c: "current_section ?st = Some (u ''resumen'')" by simp
  have n: "u ''resumen'' \<noteq> opvar" by (simp add: opvar_def u_def)
  have d: "\<not> dict_has (secciones ?st) (u ''resumen'')" by (simp add: dict_has_def)
  note r = tabla_without_flush [OF h t c n]
  have 1: "step latin1_db ?st ?raw
     = \<lparr>secciones = [], current_section = Some opvar, current_content = [u ''texto'', ?raw]\<rparr>"
    using r [THEN conjunct1] unfolding l by simp
  have 2: "\<not> dict_has (flush (step latin1_db ?st ?raw)) (u ''resumen'')"
    using r [THEN conjunct2, THEN conjunct2, THEN conjunct2] d by blast
  from 1 2 show ?thesis by blast
qed

section \<open>A table line always leaves its section in the map\<close>

lemma dict_has_flush:
  "dict_has (secciones st) k \<or> (current_section st = Some k \<and> k \<noteq> []) \<Longrightarrow> dict_has (flush st) k"
  by (auto simp: flush_def dict_has_set split: option.splits)

lemma step_keeps_table:
  assumes "dict_has (secciones st) opvar \<or> current_section st = Some opvar"
  shows "dict_has (secciones (step U st raw)) opvar \<or> current_section (step U st raw) = Some opvar"
proof -
  have fl: "dict_has (flush st) opvar"
    using assms opvar_nonempty by (intro dict_has_flush) auto
  show ?thesis
    using assms fl by (simp add: step_def step_line_def try_patrones_cases)
qed

lemma foldl_keeps_table:
  "dict_has (secciones st) opvar \<or> current_section st = Some opvar \<Longrightarrow>
   dict_has (secciones (foldl (step U) st ls)) opvar
     \<or> current_section (foldl (step U) st ls) = Some opvar"
  by (induction ls arbitrary: st) (simp_all add: step_keeps_table)

lemma foldl_finds_table:
  "\<exists>l\<in>set ls. re_search U tabla_patron (lower U (strip l)) \<Longrightarrow>
   dict_has (secciones (foldl (step U) st ls)) opvar
     \<or> current_section (foldl (step U) st ls) = Some opvar"
proof (induction ls arbitrary: st)
  case Nil
  then show ?case by simp
next
  case (Cons l ls)
  show ?case
  proof (cases "re_search U tabla_patron (lower U (strip l))")
    case True
    then have "current_section (step U st l) = Some opvar" by (rule step_tabla(1))
    then show ?thesis using foldl_keeps_table [of "step U st l" U ls] by simp
  next
    case False
    with Cons.prems have "\<exists>l\<in>set ls. re_search U tabla_patron (lower U (strip l))" by simp
    then show ?thesis using Cons.IH by simp
  qed
qed

lemma tabla_marker_suppressed:
  assumes "dict_has secs opvar"
  shows "msg_subseccion tabla_marker seccion \<notin> set (revisar_subsecciones secs)"
  using assms
  by (simp add: revisar_subsecciones_def SUB_SECCIONES_ESPERADAS_def tabla_marker_def
      msg_subseccion_def u_def)

text \<open>
  C3. For every text with at least one line in which the table pattern is found, the
  Section Map has the key "operacionalizacion de variables" (with o acute), and
  \<open>revisar_subsecciones\<close> returns no missing-subsection observation for the marker
  "tabla de operacionalizacion de variables", whatever the parent section.
\<close>

theorem table_line_gives_section:
  assumes "\<exists>line\<in>set (split_on 10 texto). re_search U tabla_patron (lower U (strip line))"
  shows "dict_has (dividir_secciones U texto) opvar
         \<and> (\<forall>seccion. msg_subseccion tabla_marker seccion
               \<notin> set (revisar_subsecciones (dividir_secciones U texto)))"
proof -
  have "dict_has (secciones (foldl (step U) seg_init (split_on 10 texto))) opvar
     \<or> current_section (foldl (step U) seg_init (split_on 10 texto)) = Some opvar"
    using assms by (rule foldl_finds_table)
  then have key: "dict_has (dividir_secciones U texto) opvar"
    unfolding dividir_secciones_def using opvar_nonempty by (intro dict_has_flush) auto
  then show ?thesis using tabla_marker_suppressed by blast
qed

theorem table_line_gives_section_witness:
  "dict_has (dividir_secciones latin1_db
       (u ''Resumen'' @ 10 # u ''variable dimensiones indicadores unidad de medida'')) opvar
   \<and> msg_subseccion tabla_marker (u ''marco te'' @ 243 # u ''rico'')
       \<notin> set (revisar_subsecciones (dividir_secciones latin1_db
            (u ''Resumen'' @ 10 # u ''variable dimensiones indicadores unidad de medida'')))"
proof -
  let ?l = "u ''variable dimensiones indicadores unidad de medida''"
  have sp: "split_on 10 (u ''Resumen'' @ 10 # ?l) = [u ''Resumen'', ?l]"
    by (simp add: u_def)
  have l: "lower latin1_db (strip ?l)
      = [] @ u ''variable'' @ u '' '' @ u ''dimensiones'' @ u '' '' @ u ''indicadores''
          @ u '' '' @ u ''unidad de medida'' @ []"
    by (simp add: u_def lower_def lower_l1_def strip_def is_space_def)
  have n: "10 \<notin> set (u '' '')" by (simp add: u_def)
  have "re_search latin1_db tabla_patron (lower latin1_db (strip ?l))"
    unfolding l by (rule tabla_patron_found [OF n n n])
  then have "\<exists>line\<in>set (split_on 10 (u ''Resumen'' @ 10 # ?l)).
      re_search latin1_db tabla_patron (lower latin1_db (strip line))"
    unfolding sp by simp
  from table_line_gives_section [OF this] show ?thesis by blast
qed

section \<open>Lines that match nothing, and the references heading\<close>

lemma step_plain:
  assumes "\<not> (\<exists>p\<in>set patrones. re_search U (map rx_lower p) (lower U (strip raw)))"
    and "\<not> re_search U tabla_patron (lower U (strip raw))"
  shows "step U st raw =
           (if truthy (current_section st)
            then st\<lparr>current_content := current_content st @ [lower U (strip raw)]\<rparr>
            else st)"
  using assms by (simp add: step_def step_line_def try_patrones_cases)

lemma foldl_plain_closed:
  assumes "\<forall>l\<in>set ls. \<not> (\<exists>p\<in>set patrones. re_search U (map rx_lower p) (lower U (strip l)))
             \<and> \<not> re_search U tabla_patron (lower U (strip l))"
    and "\<not> truthy (current_section st)"
  shows "foldl (step U) st ls = st"
  using assms by (induction ls arbitrary: st) (simp_all add: step_plain)


lemma split_on_single: "d \<notin> set s \<Longrightarrow> split_on d s = [s]"
  by (induction s) simp_all

lemma split_on_first: "d \<notin> set s \<Longrightarrow> split_on d (s @ d # t) = s # split_on d t"
  by (induction s) simp_all


lemma flush_seg_init: "flush seg_init = []"
  by (simp add: flush_def seg_init_def)




section \<open>Every text is analysed\<close>

lemma length_revisar_subs: "length (revisar_subs secs seccion contenido subs) \<le> length subs"
  by (induction subs) simp_all

lemma length_revisar_estructura: "length (revisar_estructura secs) \<le> 9"
proof -
  have "length (revisar_estructura secs) \<le> length ESTRUCTURA_ESPERADA"
    by (simp add: revisar_estructura_def)
  then show ?thesis by (simp add: ESTRUCTURA_ESPERADA_def)
qed

lemma length_revisar_subsecciones: "length (revisar_subsecciones secs) \<le> 6"
proof -
  have "length (revisar_subs secs s c [x, y, z]) \<le> 3" for s c x y z
    using length_revisar_subs [of secs s c "[x, y, z]"] by simp
  then show ?thesis
    by (simp add: revisar_subsecciones_def SUB_SECCIONES_ESPERADAS_def add_le_mono [of _ 3 _ 3, simplified])
qed

lemma length_revisar_contenido: "length (revisar_contenido secs) \<le> 1"
  by (simp add: revisar_contenido_def Let_def)

lemma revisar_subsecciones_empty:
  "revisar_subsecciones []
     = concat (map (\<lambda>(seccion, subs). map (\<lambda>sub. msg_subseccion sub seccion) subs)
         SUB_SECCIONES_ESPERADAS)"
  by (simp add: revisar_subsecciones_def SUB_SECCIONES_ESPERADAS_def dict_has_def dict_get_def
      tabla_marker_def u_def)

lemma revisar_estructura_empty: "revisar_estructura [] = map msg_seccion ESTRUCTURA_ESPERADA"
  by (simp add: revisar_estructura_def dict_has_def)

lemma revisar_contenido_empty: "revisar_contenido [] = [msg_intro]"
  by (simp add: revisar_contenido_def dict_get_def py_split_def)

lemma revisar_metodologia_empty: "revisar_metodologia [] = [msg_diseno, msg_objetivos]"
  by (simp add: revisar_metodologia_def dict_get_def diseno_def obj_generales_def
      obj_especificos_def u_def)

lemma dividir_plain:
  assumes "\<forall>l\<in>set (split_on 10 texto).
             \<not> (\<exists>p\<in>set patrones. re_search U (map rx_lower p) (lower U (strip l)))
             \<and> \<not> re_search U tabla_patron (lower U (strip l))"
  shows "dividir_secciones U texto = []"
proof -
  have "foldl (step U) seg_init (split_on 10 texto) = seg_init"
    by (rule foldl_plain_closed [OF assms]) (simp add: seg_init_def)
  then show ?thesis by (simp add: dividir_secciones_def flush_seg_init)
qed

lemma dividir_only_table:
  assumes "10 \<notin> set texto" and "re_search U tabla_patron (lower U (strip texto))"
  shows "dividir_secciones U texto = [(opvar, strip (lower U (strip texto)))]"
proof -
  let ?st = "step U seg_init texto"
  have t: "secciones (fst (try_patrones U patrones (lower U (strip texto)) seg_init)) = []"
    "current_content (fst (try_patrones U patrones (lower U (strip texto)) seg_init)) = []"
    by (simp_all add: try_patrones_cases flush_seg_init) (simp_all add: seg_init_def)
  have "current_section ?st = Some opvar" "secciones ?st = []"
    "current_content ?st = [lower U (strip texto)]"
    using step_tabla [OF assms(2), of seg_init] by (simp_all add: t)
  then have "flush ?st = [(opvar, strip (lower U (strip texto)))]"
    using opvar_nonempty by (simp add: flush_def)
  then show ?thesis
    by (simp add: dividir_secciones_def split_on_single [OF assms(1)])
qed

text \<open>
  C8. Every function of the analysis is total on every text: the source indexes
  nothing, reads the map only through \<open>get\<close> and \<open>in\<close>, and its patterns are
  constants, so it has no failing branch to model. For every text the analysis returns
  at most 16 observations (9 sections, 6 subsections, the introduction) and the
  methodology check at most 2. The empty text has the empty Section Map; a text none
  of whose lines matches a pattern has the empty Section Map and gets every
  observation; a one-line text in which the table pattern is found has the table's
  section alone, with the line as its body.
\<close>

theorem core_never_fails:
  "length (analizar_texto U texto) \<le> 16
   \<and> length (revisar_metodologia (dividir_secciones U texto)) \<le> 2
   \<and> dividir_secciones U [] = []
   \<and> ((\<forall>l\<in>set (split_on 10 texto).
          \<not> (\<exists>p\<in>set patrones. re_search U (map rx_lower p) (lower U (strip l)))
          \<and> \<not> re_search U tabla_patron (lower U (strip l)))
        \<longrightarrow> dividir_secciones U texto = []
          \<and> analizar_texto U texto
              = map msg_seccion ESTRUCTURA_ESPERADA
                @ concat (map (\<lambda>(seccion, subs). map (\<lambda>sub. msg_subseccion sub seccion) subs)
                    SUB_SECCIONES_ESPERADAS)
                @ [msg_intro]
          \<and> revisar_metodologia (dividir_secciones U texto) = [msg_diseno, msg_objetivos])
   \<and> (10 \<notin> set texto \<and> re_search U tabla_patron (lower U (strip texto))
        \<longrightarrow> dividir_secciones U texto = [(opvar, strip (lower U (strip texto)))])"
proof (intro conjI impI)
  show "length (analizar_texto U texto) \<le> 16"
    using length_revisar_estructura [of "dividir_secciones U texto"]
      length_revisar_subsecciones [of "dividir_secciones U texto"]
      length_revisar_contenido [of "dividir_secciones U texto"]
    by (simp add: analizar_texto_def Let_def)
  show "length (revisar_metodologia (dividir_secciones U texto)) \<le> 2"
    by (simp add: revisar_metodologia_def Let_def)
  show "dividir_secciones U [] = []"
    by (rule dividir_empty)
next
  assume a: "\<forall>l\<in>set (split_on 10 texto).
          \<not> (\<exists>p\<in>set patrones. re_search U (map rx_lower p) (lower U (strip l)))
          \<and> \<not> re_search U tabla_patron (lower U (strip l))"
  show "dividir_secciones U texto = []"
    by (rule dividir_plain [OF a])
  show "analizar_texto U texto
              = map msg_seccion ESTRUCTURA_ESPERADA
                @ concat (map (\<lambda>(seccion, subs). map (\<lambda>sub. msg_subseccion sub seccion) subs)
                    SUB_SECCIONES_ESPERADAS)
                @ [msg_intro]"
    unfolding analizar_texto_def Let_def dividir_plain [OF a]
    by (simp only: revisar_estructura_empty revisar_subsecciones_empty revisar_contenido_empty)
  show "revisar_metodologia (dividir_secciones U texto) = [msg_diseno, msg_objetivos]"
    unfolding dividir_plain [OF a] by (rule revisar_metodologia_empty)
next
  assume "10 \<notin> set texto \<and> re_search U tabla_patron (lower U (strip texto))"
  then show "dividir_secciones U texto = [(opvar, strip (lower U (strip texto)))]"
    using dividir_only_table by blast
qed

theorem core_never_fails_witness:
  "dividir_secciones latin1_db (u ''hola'' @ 10 # u ''mundo'') = []
   \<and> length (analizar_texto latin1_db (u ''hola'' @ 10 # u ''mundo'')) = 16
   \<and> dividir_secciones latin1_db (u ''variable dimensiones indicadores unidad de medida'')
       = [(opvar, u ''variable dimensiones indicadores unidad de medida'')]"
proof -
  let ?t = "u ''hola'' @ 10 # u ''mundo''"
  let ?l = "u ''variable dimensiones indicadores unidad de medida''"
  have sp: "split_on 10 ?t = [u ''hola'', u ''mundo'']" by (simp add: u_def)
  have pl: "\<forall>l\<in>set (split_on 10 ?t).
          \<not> (\<exists>p\<in>set patrones. re_search latin1_db (map rx_lower p) (lower latin1_db (strip l)))
          \<and> \<not> re_search latin1_db tabla_patron (lower latin1_db (strip l))"
    unfolding sp by (simp add: run_defs)
  note a = core_never_fails [of latin1_db ?t, THEN conjunct2, THEN conjunct2, THEN conjunct2,
      THEN conjunct1, THEN mp, OF pl]
  have 1: "dividir_secciones latin1_db ?t = []" using a by blast
  have "length (analizar_texto latin1_db ?t)
      = length (map msg_seccion ESTRUCTURA_ESPERADA
                @ concat (map (\<lambda>(seccion, subs). map (\<lambda>sub. msg_subseccion sub seccion) subs)
                    SUB_SECCIONES_ESPERADAS)
                @ [msg_intro])"
    using a by simp
  then have 2: "length (analizar_texto latin1_db ?t) = 16"
    by (simp add: ESTRUCTURA_ESPERADA_def SUB_SECCIONES_ESPERADAS_def)
  have n: "10 \<notin> set ?l" by (simp add: u_def)
  have l: "lower latin1_db (strip ?l)
      = [] @ u ''variable'' @ u '' '' @ u ''dimensiones'' @ u '' '' @ u ''indicadores''
          @ u '' '' @ u ''unidad de medida'' @ []"
    by (simp add: u_def lower_def lower_l1_def strip_def is_space_def)
  have ns: "10 \<notin> set (u '' '')" by (simp add: u_def)
  have f: "re_search latin1_db tabla_patron (lower latin1_db (strip ?l))"
    unfolding l by (rule tabla_patron_found [OF ns ns ns])
  have s: "strip (lower latin1_db (strip ?l)) = ?l"
    by (simp add: u_def lower_def lower_l1_def strip_def is_space_def)
  have 3: "dividir_secciones latin1_db ?l = [(opvar, ?l)]"
    using core_never_fails [of latin1_db ?l, THEN conjunct2, THEN conjunct2, THEN conjunct2,
      THEN conjunct2, THEN mp, OF conjI [OF n f]] unfolding s .
  from 1 2 3 show ?thesis by blast
qed

section \<open>The Section Map depends on the text alone\<close>



















end
